theory Spec2Isabelle
  imports Complex_Main
begin

section \<open>The LUIS provider of botpress-nlu (src/providers/luis.js)\<close>

text \<open>
  The provider synchronises a local corpus of intents with a model hosted by LUIS. All of
  its methods are asynchronous and talk to collaborators: the HTTP client (axios), the
  key-value store, the corpus storage, the label parser and the entity table. The
  embedding makes every collaborator's answer an input (the record \<open>world\<close> below) and
  every effect an entry of a trace (the type \<open>event\<close>), so that a method is a function
  from the answers it receives to its completion, the trace of what it did, and the
  content of the key-value store afterwards.
\<close>

subsection \<open>JavaScript values\<close>

text \<open>
  A property that may be missing reads as \<open>undefined\<close>: it is a \<open>string option\<close> with
  \<open>None\<close> for \<open>undefined\<close>. String concatenation prints \<open>undefined\<close> as the word, and a
  string is truthy when it is not empty.
\<close>

fun js_str :: "string option \<Rightarrow> string" where
  "js_str None = ''undefined''"
| "js_str (Some s) = s"

definition js_or :: "string \<Rightarrow> string \<Rightarrow> string" where
  "js_or a b = (if a \<noteq> [] then a else b)"

definition startsWith :: "string \<Rightarrow> string \<Rightarrow> bool" where
  "startsWith s p = (take (length p) s = p)"

text \<open>
  An error object. \<open>Error\<close> is what the provider itself throws with \<open>new Error(msg)\<close>,
  \<open>TypeError\<close> what the runtime throws on a property read of \<open>undefined\<close>, and
  \<open>RequestError msg detail\<close> a rejected HTTP request, with its own message and, when
  the provider answered with a structured body, \<open>response.data.error.message\<close>.
\<close>

datatype error = Error string | TypeError string | RequestError string "string option"

fun message :: "error \<Rightarrow> string" where
  "message (Error m) = m"
| "message (TypeError m) = m"
| "message (RequestError m d) = m"

text \<open>\<open>_.get(err, 'response.data.error.message')\<close>\<close>

fun detailedError :: "error \<Rightarrow> string option" where
  "detailedError (Error m) = None"
| "detailedError (TypeError m) = None"
| "detailedError (RequestError m d) = d"

text \<open>An awaited HTTP request: the promise is rejected, or resolved with the data.\<close>

datatype 'a response = Rejected error | Resolved 'a

text \<open>
  A number as the poll loop computes it: the quotient of two array lengths, which is
  \<open>NaN\<close> for \<open>0 / 0\<close>. The lengths are below \<open>2^32\<close>, where the rounded quotient of
  \<open>n - k\<close> by \<open>n\<close> is at least one exactly when the exact quotient is, so the exact
  rational stands for the double.
\<close>

datatype js_number = NaN | Num rat

definition js_div :: "nat \<Rightarrow> nat \<Rightarrow> js_number" where
  "js_div a b = (if b = 0 then NaN else Num (of_nat a / of_nat b))"

fun js_ge1 :: "js_number \<Rightarrow> bool" where
  "js_ge1 NaN = False"
| "js_ge1 (Num q) = (1 \<le> q)"

subsection \<open>Data\<close>

definition LUIS_APP_VERSION :: string where
  "LUIS_APP_VERSION = ''1.0''"

text \<open>An entry of the provider's list of versions.\<close>

record version_entry =
  version :: string
  lastModifiedDateTime :: "string option"

text \<open>
  What \<open>getRemoteVersion\<close> returns: the entry found, \<open>undefined\<close> when \<open>_.find\<close> finds
  none, or the empty array \<open>[]\<close> of its \<open>catch\<close> branch.
\<close>

datatype remote = Undefined | EmptyArray | Found version_entry

text \<open>The value stored under \<open>LUIS_HASH_KVS_KEY\<close>: \<open>{ hash, time }\<close>.\<close>

record metadata =
  hash :: string
  time :: "string option"

text \<open>A label of the parser: \<open>label.type\<close>, \<open>label.start\<close>, \<open>label.end\<close>.\<close>

record label =
  ltype :: string
  lstart :: int
  lend :: int

text \<open>The parser's result: \<open>extracted.text\<close>, \<open>extracted.labels\<close>.\<close>

record extracted =
  text_of :: string
  labels :: "label list"

text \<open>An intent of the corpus: \<open>intent.name\<close>, \<open>intent.utterances\<close>, \<open>intent.entities\<close>.\<close>

record intent =
  iname :: string
  utterances :: "string list"
  ientities :: "string list"

text \<open>An entry of the entity table: its \<open>'@luis'\<close> property.\<close>

record entity =
  luis :: "string option"

text \<open>An entity of an utterance of the payload: \<open>{ entity, startPos, endPos }\<close>.\<close>

record span =
  sentity :: string
  startPos :: int
  endPos :: int

text \<open>An utterance of the payload: \<open>{ text, intent, entities }\<close>.\<close>

record utterance =
  utext :: string
  uintent :: string
  uentities :: "span list"

text \<open>The application's descriptor: \<open>appInfo.name\<close>, \<open>.description\<close>, \<open>.culture\<close>.\<close>

record appInfo =
  aname :: string
  description :: string
  aculture :: string

text \<open>The body of the import request.\<close>

record payload =
  luis_schema_version :: string
  versionId :: string
  pname :: string
  desc :: string
  culture :: string
  intents :: "string list"
  entities :: "unit list"
  composites :: "unit list"
  closedLists :: "unit list"
  bing_entities :: "string list"
  model_features :: "unit list"
  regex_features :: "unit list"
  putterances :: "utterance list"

text \<open>
  A submodel of a poll response. The loop reads three paths of it: \<open>m.status\<close> (through
  \<open>_.find(models, { status: 'Fail' })\<close>), \<open>m.details.status\<close> (in the filter that counts
  the submodels in progress) and \<open>m.details.failureReason\<close>; and \<open>m.modelId\<close>.
\<close>

record details =
  dstatus :: "string option"
  failureReason :: "string option"

record submodel =
  modelId :: "string option"
  status :: "string option"
  mdetails :: "details option"

subsection \<open>The trace of a run\<close>

datatype level = Debug | Info | Err

datatype event =
    ListVersions
  | KvsGet
  | KvsSet metadata
  | DeleteVersion
  | GetAppInfo
  | ImportVersion payload
  | StartTraining
  | PollTraining
  | Publish bool
  | Log level string
  | LogTraining js_number

text \<open>
  \<open>Publish b\<close> is the publish request with \<open>isStaging = b\<close>. \<open>LogTraining p\<close> is the debug
  line of the poll loop, whose text is made from the number \<open>p\<close> by \<open>toFixed\<close>; the
  formatting of the number is not modelled.
\<close>

fun is_KvsSet :: "event \<Rightarrow> bool" where
  "is_KvsSet (KvsSet m) = True"
| "is_KvsSet e = False"

fun is_ImportVersion :: "event \<Rightarrow> bool" where
  "is_ImportVersion (ImportVersion p) = True"
| "is_ImportVersion e = False"

fun is_Publish :: "event \<Rightarrow> bool" where
  "is_Publish (Publish b) = True"
| "is_Publish e = False"

text \<open>
  How a method ends: it returns, it throws, or (for the poll loop, which is a
  \<open>while (true)\<close>) the fuel given to the model ran out while it was still polling.
\<close>

datatype 'a completion = Return 'a | Throw error | OutOfFuel

subsection \<open>The collaborators' answers\<close>

text \<open>
  Everything a run of \<open>sync\<close> receives from outside: the provider's configuration, the
  injected collaborators (the digest \<open>md5(JSON.stringify(.))\<close>, the entity table
  \<open>Entities\<close>, the parser), the corpus, the content of the key-value store, and the answer
  to each HTTP request in the order in which \<open>sync\<close> can issue them. \<open>pollTrain i\<close> is
  the answer to the \<open>i\<close>-th status request of the poll loop. \<open>deleteResp\<close> resolves with
  the \<open>statusCode\<close> property of the response, which may be missing.

  The local collaborators (the corpus storage, the parser, the key-value store) are taken
  to answer every call: only HTTP requests are rejected, and only the provider's own code
  throws. The one-second delay between two polls is not part of the model.
\<close>

record world =
  appId :: string
  isProduction :: bool
  digest :: "intent list \<Rightarrow> string"
  Entities :: "string \<Rightarrow> entity option"
  extractLabelsFromCanonical :: "string \<Rightarrow> string list \<Rightarrow> extracted"
  getIntents :: "intent list"
  kvs :: "metadata option"
  versionsFirst :: "version_entry list response"
  deleteResp :: "nat option response"
  appInfoResp :: "appInfo response"
  importResp :: "string response"
  trainResp :: "string option response"
  pollTrain :: "nat \<Rightarrow> submodel list response"
  publishResp :: "unit response"
  versionsSecond :: "version_entry list response"

subsection \<open>Remote version lifecycle (lines 29-77)\<close>

definition getRemoteVersion :: "version_entry list response \<Rightarrow> remote \<times> event list" where
  "getRemoteVersion r =
     (case r of
        Resolved vs \<Rightarrow>
          (case find (\<lambda>v. version v = LUIS_APP_VERSION) vs of
             Some v \<Rightarrow> (Found v, [ListVersions])
           | None \<Rightarrow> (Undefined, [ListVersions]))
      | Rejected err \<Rightarrow>
          (EmptyArray, [ListVersions, Log Debug ''[NLU::Luis] Could not fetch app versions'']))"

text \<open>The test \<open>if (currentVersion)\<close>: an object is truthy, and so is an empty array.\<close>

fun truthy :: "remote \<Rightarrow> bool" where
  "truthy Undefined = False"
| "truthy EmptyArray = True"
| "truthy (Found v) = True"

text \<open>
  The read \<open>remoteVersion.lastModifiedDateTime\<close>: a \<open>TypeError\<close> on \<open>undefined\<close>,
  \<open>undefined\<close> on the empty array, the property on an entry.
\<close>

fun lastModified :: "remote \<Rightarrow> error + string option" where
  "lastModified Undefined = Inl (TypeError ''Cannot read property lastModifiedDateTime of undefined'')"
| "lastModified EmptyArray = Inr None"
| "lastModified (Found v) = Inr (lastModifiedDateTime v)"

definition deleteVersion :: "nat option response \<Rightarrow> event list" where
  "deleteVersion r =
     (case r of
        Resolved statusCode \<Rightarrow>
          (if statusCode = Some 200
           then [DeleteVersion, Log Debug ''[NLU::Luis] Removed old version of the model'']
           else [DeleteVersion])
      | Rejected err \<Rightarrow>
          [DeleteVersion, Log Debug ''[NLU::Luis] Could not remove old version of the model''])"

definition getAppInfo :: "world \<Rightarrow> (error + appInfo) \<times> event list" where
  "getAppInfo w =
     (case appInfoResp w of
        Resolved data \<Rightarrow> (Inr data, [GetAppInfo])
      | Rejected err \<Rightarrow> (Inl (Error (''[NLU::Luis] Could not find app '' @ appId w)), [GetAppInfo]))"

subsection \<open>Change detection and the fingerprint (lines 79-100)\<close>

text \<open>
  \<open>metadata && metadata.hash === intentsHash && metadata.time === remoteVersion.lastModifiedDateTime\<close>:
  the conjunction is evaluated from the left and stops at the first falsy operand, so the
  remote version is read only when a fingerprint exists and its hash is the digest.
\<close>

definition isInSync :: "world \<Rightarrow> intent list \<Rightarrow> remote \<Rightarrow> error + bool" where
  "isInSync w localIntents remoteVersion =
     (let intentsHash = digest w localIntents in
      case kvs w of
        None \<Rightarrow> Inr False
      | Some md \<Rightarrow>
          (if hash md = intentsHash
           then (case lastModified remoteVersion of
                   Inl err \<Rightarrow> Inl err
                 | Inr t \<Rightarrow> Inr (time md = t))
           else Inr False))"

text \<open>
  \<open>onSyncSuccess\<close>: the value it stores. The argument of \<open>kvs.set\<close> is evaluated before
  the call, so a \<open>TypeError\<close> of the read leaves the store untouched.
\<close>

definition onSyncSuccess :: "world \<Rightarrow> intent list \<Rightarrow> remote \<Rightarrow> error + metadata" where
  "onSyncSuccess w localIntents remoteVersion =
     (let intentsHash = digest w localIntents in
      case lastModified remoteVersion of
        Inl err \<Rightarrow> Inl err
      | Inr t \<Rightarrow> Inr \<lparr>hash = intentsHash, time = t\<rparr>)"

subsection \<open>Payload construction (lines 118-174)\<close>

text \<open>
  \<open>xs.forEach(f)\<close> where \<open>f\<close> updates variables of the enclosing scope and may throw:
  the variables are the state, and the first exception ends the loop.
\<close>

fun forEach :: "('a \<Rightarrow> 's \<Rightarrow> error + 's) \<Rightarrow> 'a list \<Rightarrow> 's \<Rightarrow> error + 's" where
  "forEach f [] s = Inr s"
| "forEach f (x # xs) s = (case f x s of Inl err \<Rightarrow> Inl err | Inr s' \<Rightarrow> forEach f xs s')"

definition unknown_entity :: "string \<Rightarrow> error" where
  "unknown_entity t =
     Error (''[NLU::Luis] Unknown entity: '' @ t @ ''. Botpress NLU only supports native entities for now.'')"

definition unsupported_entity :: "string \<Rightarrow> error" where
  "unsupported_entity t = Error (''[NLU::Luis] LUIS doesn'' @ [CHR 0x27] @ ''t support entity of type '' @ t)"

text \<open>
  The callback of \<open>extracted.labels.forEach\<close> (lines 126-148). Its state is
  \<open>builtinEntities\<close>, shared by the whole construction, and \<open>entities\<close>, local to the
  utterance. \<open>!entity['@luis']\<close> holds when the property is missing or the empty string.
\<close>

definition label_step :: "world \<Rightarrow> label \<Rightarrow> string list \<times> span list \<Rightarrow> error + string list \<times> span list" where
  "label_step w l s =
     (case s of (builtinEntities, ents) \<Rightarrow>
        (case Entities w (ltype l) of
           None \<Rightarrow> Inl (unknown_entity (ltype l))
         | Some ent \<Rightarrow>
             (if startsWith (ltype l) ''@native.''
              then (case luis ent of
                      None \<Rightarrow> Inl (unsupported_entity (ltype l))
                    | Some n \<Rightarrow>
                        (if n = [] then Inl (unsupported_entity (ltype l))
                         else Inr (if n \<in> set builtinEntities then builtinEntities else builtinEntities @ [n],
                                   ents @ [\<lparr>sentity = n, startPos = lstart l, endPos = lend l\<rparr>])))
              else Inl (unknown_entity (ltype l)))))"

text \<open>The callback of \<open>intent.utterances.forEach\<close> (lines 122-155).\<close>

definition utterance_step ::
  "world \<Rightarrow> intent \<Rightarrow> string \<Rightarrow> string list \<times> utterance list \<Rightarrow> error + string list \<times> utterance list" where
  "utterance_step w i u s =
     (case s of (builtinEntities, utts) \<Rightarrow>
        (let ex = extractLabelsFromCanonical w u (ientities i) in
         case forEach (label_step w) (labels ex) (builtinEntities, []) of
           Inl err \<Rightarrow> Inl err
         | Inr (builtinEntities', ents) \<Rightarrow>
             Inr (builtinEntities', utts @ [\<lparr>utext = text_of ex, uintent = iname i, uentities = ents\<rparr>])))"

text \<open>The callback of \<open>intents.forEach\<close> (lines 121-156), and the whole loop.\<close>

definition intent_step ::
  "world \<Rightarrow> intent \<Rightarrow> string list \<times> utterance list \<Rightarrow> error + string list \<times> utterance list" where
  "intent_step w i s = forEach (utterance_step w i) (utterances i) s"

definition construct :: "world \<Rightarrow> intent list \<Rightarrow> error + string list \<times> utterance list" where
  "construct w its = forEach (intent_step w) its ([], [])"

definition body :: "appInfo \<Rightarrow> intent list \<Rightarrow> string list \<Rightarrow> utterance list \<Rightarrow> payload" where
  "body info its builtinEntities utts =
     \<lparr>luis_schema_version = ''2.1.0'',
      versionId = LUIS_APP_VERSION,
      pname = aname info,
      desc = description info,
      culture = aculture info,
      intents = map iname its,
      entities = [],
      composites = [],
      closedLists = [],
      bing_entities = builtinEntities,
      model_features = [],
      regex_features = [],
      putterances = utts\<rparr>"

subsection \<open>Training (lines 200-261)\<close>

definition training_error :: "string option \<Rightarrow> string option \<Rightarrow> error" where
  "training_error mid reason =
     Error (''[NLU::Luis] Error training model '' @ [CHR 0x22] @ js_str mid @ [CHR 0x22]
            @ '', reason is '' @ [CHR 0x22] @ js_str reason @ [CHR 0x22])"

text \<open>The filter's predicate \<open>m.details.status === 'InProgress'\<close>, on a submodel with details.\<close>

definition inProgress :: "submodel \<Rightarrow> bool" where
  "inProgress m = (case mdetails m of None \<Rightarrow> False | Some d \<Rightarrow> dstatus d = Some ''InProgress'')"

text \<open>
  One iteration of the poll loop on the submodels it received (lines 226-243): the
  filter reads \<open>m.details.status\<close> of every submodel, and throws on the first without
  details; then \<open>_.find(models, { status: 'Fail' })\<close> looks for a submodel whose own
  \<open>status\<close> property is \<open>'Fail'\<close>; then the progress is compared with one.
\<close>

datatype step = Break | Continue js_number | Raise error

definition poll_step :: "submodel list \<Rightarrow> step" where
  "poll_step models =
     (case find (\<lambda>m. mdetails m = None) models of
        Some m \<Rightarrow> Raise (TypeError ''Cannot read property status of undefined'')
      | None \<Rightarrow>
          (let percent = js_div (length models - length (filter inProgress models)) (length models) in
           case find (\<lambda>m. status m = Some ''Fail'') models of
             Some m \<Rightarrow>
               (case mdetails m of
                  None \<Rightarrow> Raise (TypeError ''Cannot read property failureReason of undefined'')
                | Some d \<Rightarrow> Raise (training_error (modelId m) (failureReason d)))
           | None \<Rightarrow> (if js_ge1 percent then Break else Continue percent)))"

text \<open>
  The loop \<open>while (true)\<close> from its \<open>i\<close>-th iteration on, with fuel for the number of
  iterations the model may still run. It returns the index of the iteration that took the
  \<open>break\<close>.
\<close>

primrec poll_loop :: "nat \<Rightarrow> (nat \<Rightarrow> submodel list response) \<Rightarrow> nat \<Rightarrow> nat completion \<times> event list" where
  "poll_loop 0 polls i = (OutOfFuel, [])"
| "poll_loop (Suc fuel) polls i =
     (case polls i of
        Rejected err \<Rightarrow> (Throw err, [PollTraining])
      | Resolved models \<Rightarrow>
          (case poll_step models of
             Raise err \<Rightarrow> (Throw err, [PollTraining])
           | Break \<Rightarrow> (Return i, [PollTraining, Log Debug ''[NLU::Luis] Model trained (100%)''])
           | Continue p \<Rightarrow>
               (case poll_loop fuel polls (Suc i) of
                  (c, t) \<Rightarrow> (c, PollTraining # LogTraining p # t))))"

definition train :: "nat \<Rightarrow> world \<Rightarrow> unit completion \<times> event list" where
  "train fuel w =
     (case trainResp w of
        Rejected err \<Rightarrow> (Throw err, [StartTraining])
      | Resolved st \<Rightarrow>
          (if st = Some ''Queued''
           then (case poll_loop fuel (pollTrain w) 0 of
                   (Return k, t) \<Rightarrow>
                     (case publishResp w of
                        Rejected err \<Rightarrow> (Throw err, StartTraining # t @ [Publish (\<not> isProduction w)])
                      | Resolved u \<Rightarrow> (Return (), StartTraining # t @ [Publish (\<not> isProduction w)]))
                 | (Throw err, t) \<Rightarrow> (Throw err, StartTraining # t)
                 | (OutOfFuel, t) \<Rightarrow> (OutOfFuel, StartTraining # t))
           else (Throw (Error (''Expected training to be Queued but was: '' @ js_str st)),
                 [StartTraining])))"

subsection \<open>The sync pass (lines 102-198)\<close>

text \<open>A run: how it ended, what it did, and the content of the key-value store after it.\<close>

record run =
  ending :: "unit completion"
  trace :: "event list"
  store :: "metadata option"

text \<open>
  The argument of \<open>logger.error\<close> in the \<open>catch\<close> block:
  \<open>'[NLU::Luis] Could not sync the model. Error = ' + detailedError || (err && err.message)\<close>.
  The operator \<open>+\<close> binds tighter than \<open>||\<close>, so the concatenation is the left operand
  of \<open>||\<close>.
\<close>

definition error_line :: "error \<Rightarrow> string" where
  "error_line err =
     js_or (''[NLU::Luis] Could not sync the model. Error = '' @ js_str (detailedError err)) (message err)"

text \<open>The \<open>try\<close> block (lines 177-193), for the payload \<open>b\<close>.\<close>

definition submit :: "nat \<Rightarrow> world \<Rightarrow> intent list \<Rightarrow> payload \<Rightarrow> run" where
  "submit fuel w its b =
     (case importResp w of
        Rejected err \<Rightarrow> \<lparr>ending = Throw err, trace = [ImportVersion b], store = kvs w\<rparr>
      | Resolved data \<Rightarrow>
          (case train fuel w of
             (Throw err, t) \<Rightarrow> \<lparr>ending = Throw err, trace = ImportVersion b # t, store = kvs w\<rparr>
           | (OutOfFuel, t) \<Rightarrow> \<lparr>ending = OutOfFuel, trace = ImportVersion b # t, store = kvs w\<rparr>
           | (Return u, t) \<Rightarrow>
               (case getRemoteVersion (versionsSecond w) of
                  (currentVersion, t') \<Rightarrow>
                    (case onSyncSuccess w its currentVersion of
                       Inl err \<Rightarrow>
                         \<lparr>ending = Throw err, trace = ImportVersion b # t @ t', store = kvs w\<rparr>
                     | Inr md \<Rightarrow>
                         \<lparr>ending = Return (),
                          trace = ImportVersion b # t @ t' @
                            [KvsSet md, Log Info (''[NLU::Luis] Synced model ['' @ data @ '']'')],
                          store = Some md\<rparr>))))"

text \<open>The \<open>try\<close> with its \<open>catch\<close> (lines 176-197): a thrown error is logged and sync returns.\<close>

definition guarded :: "nat \<Rightarrow> world \<Rightarrow> intent list \<Rightarrow> payload \<Rightarrow> run" where
  "guarded fuel w its b =
     (let r = submit fuel w its b in
      case ending r of
        Throw err \<Rightarrow> r\<lparr>ending := Return (), trace := trace r @ [Log Err (error_line err)]\<rparr>
      | Return u \<Rightarrow> r
      | OutOfFuel \<Rightarrow> r)"

definition sync :: "nat \<Rightarrow> world \<Rightarrow> run" where
  "sync fuel w =
     (let its = getIntents w in
      case getRemoteVersion (versionsFirst w) of
        (currentVersion, t0) \<Rightarrow>
          (case isInSync w its currentVersion of
             Inl err \<Rightarrow> \<lparr>ending = Throw err, trace = t0 @ [KvsGet], store = kvs w\<rparr>
           | Inr True \<Rightarrow>
               \<lparr>ending = Return (),
                trace = t0 @ [KvsGet, Log Debug ''[NLU::Luis] Model is up to date''],
                store = kvs w\<rparr>
           | Inr False \<Rightarrow>
               (let t1 = t0 @ [KvsGet, Log Debug ''[NLU::Luis] The model needs to be updated''] @
                      (if truthy currentVersion
                       then Log Debug ''[NLU::Luis] Deleting old version of the model'' #
                            deleteVersion (deleteResp w)
                       else [])
                in case construct w its of
                     Inl err \<Rightarrow> \<lparr>ending = Throw err, trace = t1, store = kvs w\<rparr>
                   | Inr (builtinEntities, utts) \<Rightarrow>
                       (case getAppInfo w of
                          (Inl err, t2) \<Rightarrow> \<lparr>ending = Throw err, trace = t1 @ t2, store = kvs w\<rparr>
                        | (Inr info, t2) \<Rightarrow>
                            (let r = guarded fuel w its (body info its builtinEntities utts)
                             in r\<lparr>trace := t1 @ t2 @ trace r\<rparr>)))))"

subsection \<open>Notions the properties are stated with\<close>

text \<open>The labels of a corpus, in the order in which the three nested loops visit them.\<close>

definition utterance_labels :: "world \<Rightarrow> intent \<Rightarrow> string \<Rightarrow> label list" where
  "utterance_labels w i u = labels (extractLabelsFromCanonical w u (ientities i))"

definition intent_labels :: "world \<Rightarrow> intent \<Rightarrow> label list" where
  "intent_labels w i = concat (map (utterance_labels w i) (utterances i))"

definition corpus_labels :: "world \<Rightarrow> intent list \<Rightarrow> label list" where
  "corpus_labels w its = concat (map (intent_labels w) its)"

text \<open>
  A label whose type is unknown to the entity table, or known to it and not supported by
  LUIS (no truthy \<open>'@luis'\<close> property).
\<close>

definition unknown_or_unsupported :: "world \<Rightarrow> label \<Rightarrow> bool" where
  "unknown_or_unsupported w l =
     (case Entities w (ltype l) of
        None \<Rightarrow> True
      | Some ent \<Rightarrow> (case luis ent of None \<Rightarrow> True | Some n \<Rightarrow> n = []))"

text \<open>A label the callback accepts, and the error it throws on one it does not accept.\<close>

definition accepted :: "world \<Rightarrow> label \<Rightarrow> bool" where
  "accepted w l =
     (case Entities w (ltype l) of
        None \<Rightarrow> False
      | Some ent \<Rightarrow>
          (if startsWith (ltype l) ''@native.''
           then (case luis ent of None \<Rightarrow> False | Some n \<Rightarrow> n \<noteq> [])
           else False))"

definition rejected :: "world \<Rightarrow> label \<Rightarrow> bool" where
  "rejected w l = (\<not> accepted w l)"

definition rejection :: "world \<Rightarrow> label \<Rightarrow> error" where
  "rejection w l =
     (case Entities w (ltype l) of
        None \<Rightarrow> unknown_entity (ltype l)
      | Some ent \<Rightarrow>
          (if startsWith (ltype l) ''@native.''
           then unsupported_entity (ltype l)
           else unknown_entity (ltype l)))"

text \<open>
  The LUIS name a label refers to (none when the table has no name for its type), and
  the names a corpus refers to, in the order of the traversal.
\<close>

definition label_name :: "world \<Rightarrow> label \<Rightarrow> string list" where
  "label_name w l =
     (case Entities w (ltype l) of
        None \<Rightarrow> []
      | Some ent \<Rightarrow> (case luis ent of None \<Rightarrow> [] | Some n \<Rightarrow> [n]))"

definition corpus_names :: "world \<Rightarrow> intent list \<Rightarrow> string list" where
  "corpus_names w its = concat (map (label_name w) (corpus_labels w its))"

text \<open>The first occurrence of every element of a list, in the order of the list.\<close>

definition first_occurrences :: "'a list \<Rightarrow> 'a list" where
  "first_occurrences xs = rev (remdups (rev xs))"

text \<open>
  The events of a sync pass before the payload is built (lines 103-116), when the check
  says that a sync is needed; and the events of each phase.
\<close>

definition preamble :: "world \<Rightarrow> event list" where
  "preamble w =
     (case getRemoteVersion (versionsFirst w) of
        (currentVersion, t0) \<Rightarrow>
          t0 @ [KvsGet, Log Debug ''[NLU::Luis] The model needs to be updated''] @
          (if truthy currentVersion
           then Log Debug ''[NLU::Luis] Deleting old version of the model'' #
                deleteVersion (deleteResp w)
           else []))"

fun lookup_event :: "event \<Rightarrow> bool" where
  "lookup_event ListVersions = True"
| "lookup_event KvsGet = True"
| "lookup_event DeleteVersion = True"
| "lookup_event GetAppInfo = True"
| "lookup_event (Log lv m) = True"
| "lookup_event e = False"

fun training_event :: "event \<Rightarrow> bool" where
  "training_event StartTraining = True"
| "training_event PollTraining = True"
| "training_event (Publish b) = True"
| "training_event (Log lv m) = True"
| "training_event (LogTraining p) = True"
| "training_event e = False"

subsection \<open>A corpus and a provider to run the model on\<close>

definition demo_parser :: "string \<Rightarrow> string list \<Rightarrow> extracted" where
  "demo_parser u decls =
     \<lparr>text_of = u, labels = map (\<lambda>d. \<lparr>ltype = d, lstart = 0, lend = 1\<rparr>) decls\<rparr>"

definition demo_entities :: "string \<Rightarrow> entity option" where
  "demo_entities =
     [''@native.number'' \<mapsto> \<lparr>luis = Some ''number''\<rparr>,
      ''@native.email'' \<mapsto> \<lparr>luis = Some ''email''\<rparr>,
      ''@native.alien'' \<mapsto> \<lparr>luis = None\<rparr>,
      ''city'' \<mapsto> \<lparr>luis = Some ''geography''\<rparr>]"

text \<open>A submodel as LUIS reports it: its status is a property of its \<open>details\<close>.\<close>

definition luis_model :: "string \<Rightarrow> string \<Rightarrow> string option \<Rightarrow> submodel" where
  "luis_model mid st reason =
     \<lparr>modelId = Some mid, status = None,
      mdetails = Some \<lparr>dstatus = Some st, failureReason = reason\<rparr>\<rparr>"

definition demo_polls :: "nat \<Rightarrow> submodel list response" where
  "demo_polls i =
     Resolved [luis_model ''m1'' (if i < 1 then ''InProgress'' else ''Success'') None]"

definition demo_intent :: "string list \<Rightarrow> intent" where
  "demo_intent decls = \<lparr>iname = ''greet'', utterances = [''hello''], ientities = decls\<rparr>"

text \<open>
  A first sync: nothing stored, no remote version, every request answered, the training
  done at the second poll.
\<close>

definition demo :: world where
  "demo =
     \<lparr>appId = ''app'',
      isProduction = False,
      digest = (\<lambda>its. concat (map iname its)),
      Entities = demo_entities,
      extractLabelsFromCanonical = demo_parser,
      getIntents = [demo_intent [''@native.number'', ''@native.email'', ''@native.number'']],
      kvs = None,
      versionsFirst = Resolved [],
      deleteResp = Resolved None,
      appInfoResp = Resolved \<lparr>aname = ''bot'', description = ''a bot'', aculture = ''en-us''\<rparr>,
      importResp = Resolved ''1.0'',
      trainResp = Resolved (Some ''Queued''),
      pollTrain = demo_polls,
      publishResp = Resolved (),
      versionsSecond = Resolved [\<lparr>version = ''1.0'', lastModifiedDateTime = Some ''t1''\<rparr>]\<rparr>"

definition demo_with :: "string list \<Rightarrow> world" where
  "demo_with decls = demo\<lparr>getIntents := [demo_intent decls]\<rparr>"

text \<open>
  Poll answers of a training that fails: two submodels in progress at the first poll; at
  the second, one done and one failed, reported as LUIS reports it.
\<close>

definition failing_polls :: "nat \<Rightarrow> submodel list response" where
  "failing_polls i =
     Resolved (if i < 1
               then [luis_model ''m1'' ''InProgress'' None, luis_model ''X'' ''InProgress'' None]
               else [luis_model ''m1'' ''Success'' None, luis_model ''X'' ''Fail'' (Some ''FewLabels'')])"

text \<open>The utterances of the payload built from the corpus of \<open>demo\<close>.\<close>

definition demo_utterances :: "utterance list" where
  "demo_utterances =
     [\<lparr>utext = ''hello'', uintent = ''greet'',
       uentities = [\<lparr>sentity = ''number'', startPos = 0, endPos = 1\<rparr>,
                    \<lparr>sentity = ''email'', startPos = 0, endPos = 1\<rparr>,
                    \<lparr>sentity = ''number'', startPos = 0, endPos = 1\<rparr>]\<rparr>]"

lemmas demo_defs =
  demo_def demo_intent_def demo_polls_def luis_model_def demo_entities_def demo_parser_def

lemmas sync_defs =
  sync_def guarded_def submit_def train_def poll_step_def inProgress_def js_div_def
  getRemoteVersion_def isInSync_def onSyncSuccess_def getAppInfo_def deleteVersion_def
  construct_def intent_step_def utterance_step_def label_step_def startsWith_def body_def
  LUIS_APP_VERSION_def error_line_def js_or_def training_error_def unknown_entity_def
  unsupported_entity_def

section \<open>Payload construction: what the loops do\<close>

subsection \<open>The first rejected label decides\<close>

lemma find_append_case:
  "find P (xs @ ys) = (case find P xs of Some x \<Rightarrow> Some x | None \<Rightarrow> find P ys)"
  by (induction xs) auto

lemma forEach_nested_Some:
  assumes found: "find P (concat (map g ys)) = Some x"
    and bad: "\<And>y s x. find P (g y) = Some x \<Longrightarrow> f y s = Inl (err x)"
    and good: "\<And>y s. find P (g y) = None \<Longrightarrow> \<exists>s'. f y s = Inr s'"
  shows "forEach f ys s = Inl (err x)"
  using found
proof (induction ys arbitrary: s)
  case Nil
  then show ?case by simp
next
  case (Cons y ys)
  show ?case
  proof (cases "find P (g y)")
    case None
    then obtain s' where "f y s = Inr s'" using good by blast
    with None Cons show ?thesis by (simp add: find_append_case)
  next
    case (Some x')
    with Cons.prems have "x' = x" by (simp add: find_append_case)
    with Some show ?thesis by (simp add: bad)
  qed
qed

lemma forEach_nested_None:
  assumes none: "find P (concat (map g ys)) = None"
    and good: "\<And>y s. find P (g y) = None \<Longrightarrow> \<exists>s'. f y s = Inr s'"
  shows "\<exists>s'. forEach f ys s = Inr s'"
  using none
proof (induction ys arbitrary: s)
  case Nil
  then show ?case by simp
next
  case (Cons y ys)
  from Cons.prems have here: "find P (g y) = None" and rest: "find P (concat (map g ys)) = None"
    by (auto simp: find_append_case split: option.splits)
  from good [OF here] obtain s' where "f y s = Inr s'" by blast
  with Cons.IH [OF rest] show ?case by simp
qed

lemma label_step_rejected: "rejected w l \<Longrightarrow> label_step w l s = Inl (rejection w l)"
  by (cases s) (auto simp: rejected_def accepted_def rejection_def label_step_def split: option.splits if_splits)

lemma label_step_accepted: "\<not> rejected w l \<Longrightarrow> \<exists>s'. label_step w l s = Inr s'"
  by (cases s) (auto simp: rejected_def accepted_def label_step_def split: option.splits if_splits)

lemma labels_forEach_rejects:
  assumes "find (rejected w) ls = Some l"
  shows "forEach (label_step w) ls s = Inl (rejection w l)"
proof (rule forEach_nested_Some [where P = "rejected w" and g = "\<lambda>l. [l]"])
  show "find (rejected w) (concat (map (\<lambda>l. [l]) ls)) = Some l"
    using assms by simp
next
  fix y s x
  assume "find (rejected w) [y] = Some x"
  then have "rejected w y" and "x = y" by (auto split: if_splits)
  then show "label_step w y s = Inl (rejection w x)" by (simp add: label_step_rejected)
next
  fix y s
  assume "find (rejected w) [y] = None"
  then have "\<not> rejected w y" by (auto split: if_splits)
  then show "\<exists>s'. label_step w y s = Inr s'" by (rule label_step_accepted)
qed

lemma labels_forEach_accepts:
  assumes "find (rejected w) ls = None"
  shows "\<exists>s'. forEach (label_step w) ls s = Inr s'"
proof (rule forEach_nested_None [where P = "rejected w" and g = "\<lambda>l. [l]"])
  show "find (rejected w) (concat (map (\<lambda>l. [l]) ls)) = None"
    using assms by simp
next
  fix y s
  assume "find (rejected w) [y] = None"
  then have "\<not> rejected w y" by (auto split: if_splits)
  then show "\<exists>s'. label_step w y s = Inr s'" by (rule label_step_accepted)
qed

lemma utterance_step_rejects:
  "find (rejected w) (utterance_labels w i u) = Some l \<Longrightarrow> utterance_step w i u s = Inl (rejection w l)"
  by (cases s) (simp add: utterance_step_def utterance_labels_def labels_forEach_rejects)

lemma utterance_step_accepts:
  assumes "find (rejected w) (utterance_labels w i u) = None"
  shows "\<exists>s'. utterance_step w i u s = Inr s'"
proof -
  obtain b us where s: "s = (b, us)" by (cases s)
  from labels_forEach_accepts [OF assms, of "(b, [])"]
  obtain b' es where "forEach (label_step w) (utterance_labels w i u) (b, []) = Inr (b', es)"
    by auto
  then show ?thesis by (simp add: s utterance_step_def utterance_labels_def)
qed

lemma intent_step_rejects:
  assumes "find (rejected w) (intent_labels w i) = Some l"
  shows "intent_step w i s = Inl (rejection w l)"
  unfolding intent_step_def
proof (rule forEach_nested_Some [where P = "rejected w" and g = "utterance_labels w i"])
  show "find (rejected w) (concat (map (utterance_labels w i) (utterances i))) = Some l"
    using assms by (simp add: intent_labels_def)
qed (simp add: utterance_step_rejects, erule utterance_step_accepts)

lemma intent_step_accepts:
  assumes "find (rejected w) (intent_labels w i) = None"
  shows "\<exists>s'. intent_step w i s = Inr s'"
  unfolding intent_step_def
proof (rule forEach_nested_None [where P = "rejected w" and g = "utterance_labels w i"])
  show "find (rejected w) (concat (map (utterance_labels w i) (utterances i))) = None"
    using assms by (simp add: intent_labels_def)
qed (erule utterance_step_accepts)

lemma construct_rejects:
  assumes "find (rejected w) (corpus_labels w its) = Some l"
  shows "construct w its = Inl (rejection w l)"
  unfolding construct_def
proof (rule forEach_nested_Some [where P = "rejected w" and g = "intent_labels w"])
  show "find (rejected w) (concat (map (intent_labels w) its)) = Some l"
    using assms by (simp add: corpus_labels_def)
qed (simp add: intent_step_rejects, erule intent_step_accepts)

lemma construct_accepts:
  assumes "find (rejected w) (corpus_labels w its) = None"
  shows "\<exists>r. construct w its = Inr r"
  unfolding construct_def
proof (rule forEach_nested_None [where P = "rejected w" and g = "intent_labels w"])
  show "find (rejected w) (concat (map (intent_labels w) its)) = None"
    using assms by (simp add: corpus_labels_def)
qed (erule intent_step_accepts)

lemma construct_aborts:
  assumes "l \<in> set (corpus_labels w its)" and "rejected w l"
  shows "\<exists>l'. l' \<in> set (corpus_labels w its) \<and> rejected w l' \<and> construct w its = Inl (rejection w l')"
proof -
  from assms have "find (rejected w) (corpus_labels w its) \<noteq> None"
    by (auto simp: find_None_iff)
  then obtain l' where f: "find (rejected w) (corpus_labels w its) = Some l'" by auto
  then have "l' \<in> set (corpus_labels w its)" "rejected w l'"
    by (auto simp: find_Some_iff)
  with construct_rejects [OF f] show ?thesis by blast
qed

subsection \<open>The built-in entity names\<close>

lemma set_first_occurrences: "set (first_occurrences xs) = set xs"
  by (simp add: first_occurrences_def)

lemma distinct_first_occurrences: "distinct (first_occurrences xs)"
  by (simp add: first_occurrences_def)

lemma first_occurrences_snoc:
  "first_occurrences (xs @ [x]) = (if x \<in> set xs then first_occurrences xs else first_occurrences xs @ [x])"
  by (simp add: first_occurrences_def)

lemma first_occurrences_Nil: "first_occurrences [] = []"
  by (simp add: first_occurrences_def)

lemma forEach_names:
  assumes run: "forEach f xs s = Inr s'" and start: "fst s = first_occurrences ns"
    and step: "\<And>x s s' ns. f x s = Inr s' \<Longrightarrow> fst s = first_occurrences ns \<Longrightarrow>
      fst s' = first_occurrences (ns @ concat (map N (g x)))"
  shows "fst s' = first_occurrences (ns @ concat (map N (concat (map g xs))))"
  using run start
proof (induction xs arbitrary: s ns)
  case Nil
  then show ?case by simp
next
  case (Cons x xs)
  from Cons.prems(1) obtain s1 where s1: "f x s = Inr s1" and rest: "forEach f xs s1 = Inr s'"
    by (auto split: sum.splits)
  from step [OF s1 Cons.prems(2)] have "fst s1 = first_occurrences (ns @ concat (map N (g x)))" .
  from Cons.IH [OF rest this] show ?case by simp
qed

lemma label_step_names:
  assumes "label_step w l s = Inr s'" and "fst s = first_occurrences ns"
  shows "fst s' = first_occurrences (ns @ concat (map (label_name w) [l]))"
  using assms
  by (cases s) (auto simp: label_step_def label_name_def first_occurrences_snoc set_first_occurrences
      split: option.splits if_splits)

lemma utterance_step_names:
  assumes "utterance_step w i u s = Inr s'" and "fst s = first_occurrences ns"
  shows "fst s' = first_occurrences (ns @ concat (map (label_name w) (utterance_labels w i u)))"
proof -
  obtain b us where s: "s = (b, us)" by (cases s)
  from assms(1) obtain b' es where
    run: "forEach (label_step w) (utterance_labels w i u) (b, []) = Inr (b', es)" and s': "fst s' = b'"
    by (auto simp: s utterance_step_def utterance_labels_def Let_def split: sum.splits)
  from assms(2) have "fst (b, []::span list) = first_occurrences ns" by (simp add: s)
  have "fst (b', es) = first_occurrences (ns @ concat (map (label_name w) (concat (map (\<lambda>l. [l]) (utterance_labels w i u)))))"
    using run \<open>fst (b, []) = first_occurrences ns\<close>
    by (rule forEach_names [where f = "label_step w" and g = "\<lambda>l. [l]"]) (rule label_step_names)
  then show ?thesis by (simp add: s')
qed

lemma intent_step_names:
  assumes "intent_step w i s = Inr s'" and "fst s = first_occurrences ns"
  shows "fst s' = first_occurrences (ns @ concat (map (label_name w) (intent_labels w i)))"
  unfolding intent_labels_def
proof (rule forEach_names [where f = "utterance_step w i" and g = "utterance_labels w i"])
  show "forEach (utterance_step w i) (utterances i) s = Inr s'"
    using assms(1) by (simp add: intent_step_def)
  show "fst s = first_occurrences ns" by fact
qed (rule utterance_step_names)

lemma construct_names:
  assumes "construct w its = Inr (b, us)"
  shows "b = first_occurrences (corpus_names w its)"
proof -
  have "fst (b, us) = first_occurrences ([] @ concat (map (label_name w) (concat (map (intent_labels w) its))))"
  proof (rule forEach_names [where f = "intent_step w" and g = "intent_labels w"])
    show "forEach (intent_step w) its ([], []) = Inr (b, us)"
      using assms by (simp add: construct_def)
    show "fst ([]::string list, []::utterance list) = first_occurrences []"
      by (simp add: first_occurrences_Nil)
  qed (rule intent_step_names)
  then show ?thesis by (simp add: corpus_names_def corpus_labels_def)
qed

section \<open>The events of each phase\<close>

lemma lookup_not_KvsSet: "lookup_event e \<Longrightarrow> \<not> is_KvsSet e"
  by (cases e) simp_all
lemma lookup_not_ImportVersion: "lookup_event e \<Longrightarrow> \<not> is_ImportVersion e"
  by (cases e) simp_all
lemma lookup_not_Publish: "lookup_event e \<Longrightarrow> \<not> is_Publish e"
  by (cases e) simp_all
lemma lookup_not_training: "lookup_event e \<Longrightarrow> e \<noteq> StartTraining \<and> e \<noteq> PollTraining"
  by (cases e) simp_all
lemma training_not_KvsSet: "training_event e \<Longrightarrow> \<not> is_KvsSet e"
  by (cases e) simp_all
lemma training_not_ImportVersion: "training_event e \<Longrightarrow> \<not> is_ImportVersion e"
  by (cases e) simp_all

lemma getRemoteVersion_events: "list_all lookup_event (snd (getRemoteVersion r))"
  by (simp add: getRemoteVersion_def split: response.splits option.splits)

lemma deleteVersion_events: "list_all lookup_event (deleteVersion r)"
  by (simp add: deleteVersion_def split: response.splits)

lemma preamble_events: "list_all lookup_event (preamble w)"
  using getRemoteVersion_events [of "versionsFirst w"]
  by (simp add: preamble_def deleteVersion_events split_beta)

lemma getAppInfo_events: "snd (getAppInfo w) = [GetAppInfo]"
  by (simp add: getAppInfo_def split: response.splits)

section \<open>Training\<close>

subsection \<open>The poll loop\<close>

lemma poll_step_Break:
  assumes "poll_step models = Break"
  shows "models \<noteq> [] \<and> filter inProgress models = []"
proof -
  let ?n = "length models" and ?k = "length (filter inProgress models)"
  from assms have ge: "js_ge1 (js_div (?n - ?k) ?n)"
    by (auto simp: poll_step_def Let_def split: option.splits if_splits)
  then have n: "?n \<noteq> 0" by (auto simp: js_div_def split: if_splits)
  with ge have "(1::rat) \<le> of_nat (?n - ?k) / of_nat ?n" by (simp add: js_div_def)
  with n have "(of_nat ?n :: rat) \<le> of_nat (?n - ?k)" by (simp add: pos_le_divide_eq)
  then have "?n \<le> ?n - ?k" by (simp only: of_nat_le_iff)
  with n have "?k = 0" by arith
  with n show ?thesis by simp
qed

lemma poll_loop_events: "list_all training_event (snd (poll_loop fuel polls i))"
  by (induction fuel arbitrary: i)
    (simp_all add: split_beta split: response.splits step.splits)

lemma poll_loop_no_Publish: "\<not> list_ex is_Publish (snd (poll_loop fuel polls i))"
  by (induction fuel arbitrary: i)
    (simp_all add: split_beta split: response.splits step.splits)

lemma poll_loop_Return:
  "poll_loop fuel polls i = (Return k, t) \<Longrightarrow>
     i \<le> k \<and> k < i + fuel \<and> (\<exists>models. polls k = Resolved models \<and> poll_step models = Break)"
proof (induction fuel arbitrary: i t)
  case 0
  then show ?case by simp
next
  case (Suc fuel)
  show ?case
  proof (cases "polls i")
    case (Rejected err)
    with Suc.prems show ?thesis by simp
  next
    case (Resolved models)
    show ?thesis
    proof (cases "poll_step models")
      case Break
      with Resolved Suc.prems show ?thesis by auto
    next
      case (Continue p)
      with Resolved Suc.prems obtain t' where "poll_loop fuel polls (Suc i) = (Return k, t')"
        by (auto split: prod.splits)
      from Suc.IH [OF this] show ?thesis by auto
    next
      case (Raise err)
      with Resolved Suc.prems show ?thesis by simp
    qed
  qed
qed

lemma poll_step_Nil: "poll_step [] = Continue NaN"
  by (simp add: poll_step_def js_div_def)

lemma poll_loop_empty:
  assumes "\<And>j. polls j = Resolved []"
  shows "poll_loop fuel polls i = (OutOfFuel, concat (replicate fuel [PollTraining, LogTraining NaN]))"
  by (induction fuel arbitrary: i) (simp_all add: assms poll_step_Nil)

subsection \<open>The runs of train\<close>

lemma train_cases [case_names Rejected NotQueued PollThrow PollFuel PublishFail Done]:
  obtains err where "trainResp w = Rejected err" "train fuel w = (Throw err, [StartTraining])"
  | st where "trainResp w = Resolved st" "st \<noteq> Some ''Queued''"
      "train fuel w = (Throw (Error (''Expected training to be Queued but was: '' @ js_str st)), [StartTraining])"
  | err t where "trainResp w = Resolved (Some ''Queued'')"
      "poll_loop fuel (pollTrain w) 0 = (Throw err, t)" "train fuel w = (Throw err, StartTraining # t)"
  | t where "trainResp w = Resolved (Some ''Queued'')"
      "poll_loop fuel (pollTrain w) 0 = (OutOfFuel, t)" "train fuel w = (OutOfFuel, StartTraining # t)"
  | k t err where "trainResp w = Resolved (Some ''Queued'')"
      "poll_loop fuel (pollTrain w) 0 = (Return k, t)" "publishResp w = Rejected err"
      "train fuel w = (Throw err, StartTraining # t @ [Publish (\<not> isProduction w)])"
  | k t where "trainResp w = Resolved (Some ''Queued'')"
      "poll_loop fuel (pollTrain w) 0 = (Return k, t)" "publishResp w = Resolved ()"
      "train fuel w = (Return (), StartTraining # t @ [Publish (\<not> isProduction w)])"
proof (cases "trainResp w")
  case (Rejected err)
  then show ?thesis using that(1) by (simp add: train_def)
next
  case (Resolved st)
  show ?thesis
  proof (cases "st = Some ''Queued''")
    case False
    with Resolved show ?thesis using that(2) by (simp add: train_def)
  next
    case True
    obtain c t where pl: "poll_loop fuel (pollTrain w) 0 = (c, t)" by (cases "poll_loop fuel (pollTrain w) 0")
    show ?thesis
    proof (cases c)
      case (Return k)
      show ?thesis
      proof (cases "publishResp w")
        case (Rejected err)
        with Return pl True Resolved show ?thesis using that(5) by (simp add: train_def)
      next
        case (Resolved u)
        with Return pl True \<open>trainResp w = Resolved st\<close> show ?thesis using that(6) by (simp add: train_def)
      qed
    next
      case (Throw err)
      with pl True Resolved show ?thesis using that(3) by (simp add: train_def)
    next
      case OutOfFuel
      with pl True Resolved show ?thesis using that(4) by (simp add: train_def)
    qed
  qed
qed

lemma train_events: "list_all training_event (snd (train fuel w))"
  using poll_loop_events [of fuel "pollTrain w" 0]
  by (cases fuel w rule: train_cases) auto

lemma train_Return_trace:
  assumes "train fuel w = (Return (), t)"
  shows "\<exists>t'. t = StartTraining # t' @ [Publish (\<not> isProduction w)]"
  using assms by (cases fuel w rule: train_cases) auto

section \<open>The runs of sync\<close>

lemma no_KvsSet_lookup: "list_all lookup_event t \<Longrightarrow> filter is_KvsSet t = []"
  by (auto simp: list_all_iff filter_empty_conv lookup_not_KvsSet)
lemma no_KvsSet_training: "list_all training_event t \<Longrightarrow> filter is_KvsSet t = []"
  by (auto simp: list_all_iff filter_empty_conv training_not_KvsSet)
lemma no_ImportVersion_lookup: "list_all lookup_event t \<Longrightarrow> filter is_ImportVersion t = []"
  by (auto simp: list_all_iff filter_empty_conv lookup_not_ImportVersion)
lemma no_ImportVersion_training: "list_all training_event t \<Longrightarrow> filter is_ImportVersion t = []"
  by (auto simp: list_all_iff filter_empty_conv training_not_ImportVersion)
lemma no_Publish_lookup: "list_all lookup_event t \<Longrightarrow> filter is_Publish t = []"
  by (auto simp: list_all_iff filter_empty_conv lookup_not_Publish)
lemma no_training_lookup: "list_all lookup_event t \<Longrightarrow> StartTraining \<notin> set t \<and> PollTraining \<notin> set t"
  using lookup_not_training by (auto simp: list_all_iff)

lemma list_ex_filter: "list_ex P xs = (filter P xs \<noteq> [])"
  by (auto simp: list_ex_iff filter_empty_conv)

lemma sync_cases [case_names CheckThrow UpToDate ConstructThrow AppInfoThrow ImportFail TrainThrow TrainFuel StampFail Done]:
  fixes fuel w
  defines "its \<equiv> getIntents w"
    and "cv \<equiv> fst (getRemoteVersion (versionsFirst w))"
    and "t0 \<equiv> snd (getRemoteVersion (versionsFirst w))"
    and "cv' \<equiv> fst (getRemoteVersion (versionsSecond w))"
    and "t2 \<equiv> snd (getRemoteVersion (versionsSecond w))"
  obtains
    err where "isInSync w its cv = Inl err"
      "sync fuel w = \<lparr>ending = Throw err, trace = t0 @ [KvsGet], store = kvs w\<rparr>"
  | "isInSync w its cv = Inr True"
      "sync fuel w = \<lparr>ending = Return (),
         trace = t0 @ [KvsGet, Log Debug ''[NLU::Luis] Model is up to date''], store = kvs w\<rparr>"
  | err where "isInSync w its cv = Inr False" "construct w its = Inl err"
      "sync fuel w = \<lparr>ending = Throw err, trace = preamble w, store = kvs w\<rparr>"
  | b us err where "isInSync w its cv = Inr False" "construct w its = Inr (b, us)"
      "appInfoResp w = Rejected err"
      "sync fuel w = \<lparr>ending = Throw (Error (''[NLU::Luis] Could not find app '' @ appId w)),
         trace = preamble w @ [GetAppInfo], store = kvs w\<rparr>"
  | b us info err where "isInSync w its cv = Inr False" "construct w its = Inr (b, us)"
      "appInfoResp w = Resolved info" "importResp w = Rejected err"
      "sync fuel w = \<lparr>ending = Return (),
         trace = preamble w @ [GetAppInfo, ImportVersion (body info its b us), Log Err (error_line err)],
         store = kvs w\<rparr>"
  | b us info d err t where "isInSync w its cv = Inr False" "construct w its = Inr (b, us)"
      "appInfoResp w = Resolved info" "importResp w = Resolved d" "train fuel w = (Throw err, t)"
      "sync fuel w = \<lparr>ending = Return (),
         trace = preamble w @ [GetAppInfo, ImportVersion (body info its b us)] @ t @ [Log Err (error_line err)],
         store = kvs w\<rparr>"
  | b us info d t where "isInSync w its cv = Inr False" "construct w its = Inr (b, us)"
      "appInfoResp w = Resolved info" "importResp w = Resolved d" "train fuel w = (OutOfFuel, t)"
      "sync fuel w = \<lparr>ending = OutOfFuel,
         trace = preamble w @ [GetAppInfo, ImportVersion (body info its b us)] @ t,
         store = kvs w\<rparr>"
  | b us info d t err where "isInSync w its cv = Inr False" "construct w its = Inr (b, us)"
      "appInfoResp w = Resolved info" "importResp w = Resolved d" "train fuel w = (Return (), t)"
      "onSyncSuccess w its cv' = Inl err"
      "sync fuel w = \<lparr>ending = Return (),
         trace = preamble w @ [GetAppInfo, ImportVersion (body info its b us)] @ t @ t2 @ [Log Err (error_line err)],
         store = kvs w\<rparr>"
  | b us info d t md where "isInSync w its cv = Inr False" "construct w its = Inr (b, us)"
      "appInfoResp w = Resolved info" "importResp w = Resolved d" "train fuel w = (Return (), t)"
      "onSyncSuccess w its cv' = Inr md"
      "sync fuel w = \<lparr>ending = Return (),
         trace = preamble w @ [GetAppInfo, ImportVersion (body info its b us)] @ t @ t2 @ [KvsSet md, Log Info (''[NLU::Luis] Synced model ['' @ d @ '']'')],
         store = Some md\<rparr>"
proof -
  have grv: "getRemoteVersion (versionsFirst w) = (cv, t0)" by (simp add: cv_def t0_def)
  have grv': "getRemoteVersion (versionsSecond w) = (cv', t2)" by (simp add: cv'_def t2_def)
  have pre: "preamble w = t0 @ [KvsGet, Log Debug ''[NLU::Luis] The model needs to be updated''] @
      (if truthy cv then Log Debug ''[NLU::Luis] Deleting old version of the model'' # deleteVersion (deleteResp w) else [])"
    by (simp add: preamble_def grv)
  show ?thesis
  proof (cases "isInSync w its cv")
    case (Inl err)
    then show ?thesis using that(1) by (simp add: sync_def grv its_def)
  next
    case (Inr insync)
    show ?thesis
    proof (cases insync)
      case True
      with Inr show ?thesis using that(2) by (simp add: sync_def grv its_def)
    next
      case False
      with Inr have ns: "isInSync w its cv = Inr False" by simp
      show ?thesis
      proof (cases "construct w its")
        case (Inl err)
        with ns show ?thesis using that(3) by (simp add: sync_def grv its_def pre)
      next
        case (Inr r)
        obtain b us where r: "r = (b, us)" by (cases r)
        with Inr have co: "construct w its = Inr (b, us)" by simp
        show ?thesis
        proof (cases "appInfoResp w")
          case (Rejected err)
          with ns co show ?thesis using that(4) [of b us err]
            by (simp add: sync_def grv its_def pre getAppInfo_def)
        next
          case (Resolved info)
          have sy: "sync fuel w = (guarded fuel w its (body info its b us))
              \<lparr>trace := preamble w @ [GetAppInfo] @ trace (guarded fuel w its (body info its b us))\<rparr>"
            using ns co Resolved by (simp add: sync_def grv its_def pre getAppInfo_def Let_def)
          show ?thesis
          proof (cases "importResp w")
            case (Rejected err)
            with ns co Resolved show ?thesis using that(5) [of b us info err]
              by (simp add: sy guarded_def submit_def)
          next
            case imp: (Resolved d)
            obtain c t where tr: "train fuel w = (c, t)" by (cases "train fuel w")
            show ?thesis
            proof (cases c)
              case (Throw err)
              with ns co Resolved imp tr show ?thesis using that(6) [of b us info d err t]
                by (simp add: sy guarded_def submit_def)
            next
              case OutOfFuel
              with ns co Resolved imp tr show ?thesis using that(7) [of b us info d t]
                by (simp add: sy guarded_def submit_def)
            next
              case (Return u)
              show ?thesis
              proof (cases "onSyncSuccess w its cv'")
                case (Inl err)
                with Return ns co Resolved imp tr show ?thesis using that(8) [of b us info d t err]
                  by (simp add: sy guarded_def submit_def grv')
              next
                case (Inr md)
                with Return ns co Resolved imp tr show ?thesis using that(9) [of b us info d t md]
                  by (simp add: sy guarded_def submit_def grv')
              qed
            qed
          qed
        qed
      qed
    qed
  qed
qed

section \<open>The properties\<close>

text \<open>
  The write of the fingerprint. In every run of sync, whatever the fuel, the store is
  written at most once. A run that writes it is one whose import request was answered,
  whose training was queued, whose poll loop took its exit and whose publish request was
  answered, and that returns; the write is the last request of the run, after its import
  and its publish request, and the store then holds the value written. When the import
  request, the request that starts the training or the publish request is rejected, or
  train throws, the run writes nothing and the store holds what it held; and so does
  every run that does not write. Whether the poll loop takes its exit is decided by
  \<open>poll_step\<close>.
\<close>

lemma fingerprint_written_once:
  "length (filter is_KvsSet (trace (sync fuel w))) \<le> 1
   \<and> (list_ex is_KvsSet (trace (sync fuel w)) \<longrightarrow>
        (\<exists>d. importResp w = Resolved d) \<and> fst (train fuel w) = Return ()
        \<and> trainResp w = Resolved (Some ''Queued'') \<and> publishResp w = Resolved ()
        \<and> ending (sync fuel w) = Return ()
        \<and> (\<exists>pre md line. trace (sync fuel w) = pre @ [KvsSet md, Log Info line]
              \<and> list_ex is_ImportVersion pre \<and> list_ex is_Publish pre
              \<and> store (sync fuel w) = Some md))
   \<and> (((\<exists>err. importResp w = Rejected err) \<or> (\<exists>err. trainResp w = Rejected err)
        \<or> (\<exists>err. fst (train fuel w) = Throw err) \<or> (\<exists>err. publishResp w = Rejected err)) \<longrightarrow>
        \<not> list_ex is_KvsSet (trace (sync fuel w)) \<and> store (sync fuel w) = kvs w)
   \<and> (\<not> list_ex is_KvsSet (trace (sync fuel w)) \<longrightarrow> store (sync fuel w) = kvs w)"
proof -
  note ev = preamble_events [of w] getRemoteVersion_events [of "versionsFirst w"]
    getRemoteVersion_events [of "versionsSecond w"] train_events [of fuel w]
  have succeeded: "trainResp w = Resolved (Some ''Queued'') \<and> publishResp w = Resolved ()"
    if "fst (train fuel w) = Return ()"
    using that by (cases fuel w rule: train_cases) simp_all
  have failed: "fst (train fuel w) \<noteq> Return ()"
    if "(\<exists>err. trainResp w = Rejected err) \<or> (\<exists>err. publishResp w = Rejected err)"
    using that by (cases fuel w rule: train_cases) auto
  show ?thesis
  proof (cases fuel w rule: sync_cases)
    case (Done b us info d t md)
    let ?pre = "preamble w @ [GetAppInfo, ImportVersion (body info (getIntents w) b us)] @ t @
      snd (getRemoteVersion (versionsSecond w))"
    from train_Return_trace [OF Done(5)] have "list_ex is_Publish t" by auto
    then have "trace (sync fuel w) = ?pre @ [KvsSet md, Log Info (''[NLU::Luis] Synced model ['' @ d @ '']'')]
        \<and> list_ex is_ImportVersion ?pre \<and> list_ex is_Publish ?pre \<and> store (sync fuel w) = Some md"
      using Done by simp
    then have last: "\<exists>pre md line. trace (sync fuel w) = pre @ [KvsSet md, Log Info line]
        \<and> list_ex is_ImportVersion pre \<and> list_ex is_Publish pre \<and> store (sync fuel w) = Some md"
      by blast
    from Done ev succeeded failed have
      "length (filter is_KvsSet (trace (sync fuel w))) \<le> 1"
      "(\<exists>d. importResp w = Resolved d) \<and> fst (train fuel w) = Return ()
        \<and> trainResp w = Resolved (Some ''Queued'') \<and> publishResp w = Resolved ()
        \<and> ending (sync fuel w) = Return ()"
      "\<not> ((\<exists>err. importResp w = Rejected err) \<or> (\<exists>err. trainResp w = Rejected err)
        \<or> (\<exists>err. fst (train fuel w) = Throw err) \<or> (\<exists>err. publishResp w = Rejected err))"
      "list_ex is_KvsSet (trace (sync fuel w))"
      by (auto simp: list_ex_filter no_KvsSet_lookup no_KvsSet_training)
    with last show ?thesis by blast
  qed (use ev in \<open>auto simp: list_ex_filter no_KvsSet_lookup no_KvsSet_training\<close>)
qed

lemma fingerprint_written_once_demo:
  "list_ex is_KvsSet (trace (sync 2 demo)) \<and> fst (train 2 demo) = Return ()
   \<and> length (filter is_KvsSet (trace (sync 2 demo))) \<le> 1
   \<and> importResp (demo\<lparr>importResp := Rejected (RequestError ''timeout'' None)\<rparr>)
       = Rejected (RequestError ''timeout'' None)
   \<and> store (sync 2 (demo\<lparr>importResp := Rejected (RequestError ''timeout'' None)\<rparr>)) = None"
proof -
  have ran: "list_ex is_KvsSet (trace (sync 2 demo))"
    by (simp add: sync_defs demo_defs numeral_2_eq_2)
  let ?w = "demo\<lparr>importResp := Rejected (RequestError ''timeout'' None)\<rparr>"
  have failed: "importResp ?w = Rejected (RequestError ''timeout'' None)" by simp
  have empty: "kvs ?w = None" by (simp add: demo_def)
  from fingerprint_written_once [of 2 demo] fingerprint_written_once [of 2 ?w] ran failed empty
  show ?thesis by auto
qed

lemma unknown_or_unsupported_rejected: "unknown_or_unsupported w l \<Longrightarrow> rejected w l"
  by (auto simp: unknown_or_unsupported_def rejected_def accepted_def split: option.splits)

lemma sync_no_import_without_payload:
  assumes "construct w (getIntents w) = Inl err"
  shows "\<not> list_ex is_ImportVersion (trace (sync fuel w))"
  using assms preamble_events [of w] getRemoteVersion_events [of "versionsFirst w"]
  by (cases fuel w rule: sync_cases) (auto simp: list_ex_filter no_ImportVersion_lookup)

lemma sync_construct_throws:
  assumes "construct w (getIntents w) = Inl err"
    and "isInSync w (getIntents w) (fst (getRemoteVersion (versionsFirst w))) = Inr False"
  shows "sync fuel w = \<lparr>ending = Throw err, trace = preamble w, store = kvs w\<rparr>"
  using assms by (cases fuel w rule: sync_cases) auto

text \<open>
  C4. Entity rejection. When the corpus has a label whose type is unknown to the entity
  table or not supported by LUIS, no run of sync issues an import request, and the
  construction of the payload throws the error of the first label it rejects. The
  construction runs when the check says that a sync is needed; sync then ends by throwing
  that error to its caller (it is thrown outside the \<open>try\<close> block), and the store is
  untouched.
\<close>

theorem entity_rejection:
  assumes "l \<in> set (corpus_labels w (getIntents w))" and "unknown_or_unsupported w l"
  shows "\<not> list_ex is_ImportVersion (trace (sync fuel w))
    \<and> (\<exists>l'. find (rejected w) (corpus_labels w (getIntents w)) = Some l'
          \<and> construct w (getIntents w) = Inl (rejection w l')
          \<and> (isInSync w (getIntents w) (fst (getRemoteVersion (versionsFirst w))) = Inr False \<longrightarrow>
               ending (sync fuel w) = Throw (rejection w l') \<and> store (sync fuel w) = kvs w))"
proof -
  from assms(2) have "rejected w l" by (rule unknown_or_unsupported_rejected)
  with assms(1) have "find (rejected w) (corpus_labels w (getIntents w)) \<noteq> None"
    by (auto simp: find_None_iff)
  then obtain l' where l': "find (rejected w) (corpus_labels w (getIntents w)) = Some l'"
    by auto
  then have fails: "construct w (getIntents w) = Inl (rejection w l')"
    by (rule construct_rejects)
  from fails have "\<not> list_ex is_ImportVersion (trace (sync fuel w))"
    by (rule sync_no_import_without_payload)
  moreover have "ending (sync fuel w) = Throw (rejection w l') \<and> store (sync fuel w) = kvs w"
    if "isInSync w (getIntents w) (fst (getRemoteVersion (versionsFirst w))) = Inr False"
    using sync_construct_throws [OF fails that] by simp
  ultimately show ?thesis using l' fails by blast
qed

theorem entity_rejection_witness:
  "ending (sync 2 (demo_with [''@native.number'', ''@native.alien''])) = Throw (unsupported_entity ''@native.alien'')
   \<and> \<not> list_ex is_ImportVersion (trace (sync 2 (demo_with [''@native.number'', ''@native.alien''])))"
proof -
  let ?w = "demo_with [''@native.number'', ''@native.alien'']"
  let ?l = "\<lparr>ltype = ''@native.alien'', lstart = 0, lend = 1\<rparr>"
  have labels: "corpus_labels ?w (getIntents ?w) =
      [\<lparr>ltype = ''@native.number'', lstart = 0, lend = 1\<rparr>, ?l]"
    by (simp add: demo_with_def corpus_labels_def intent_labels_def utterance_labels_def demo_defs)
  have bad: "unknown_or_unsupported ?w ?l"
    by (simp add: demo_with_def unknown_or_unsupported_def demo_defs)
  have needed: "isInSync ?w (getIntents ?w) (fst (getRemoteVersion (versionsFirst ?w))) = Inr False"
    by (simp add: demo_with_def isInSync_def demo_defs)
  have first: "find (rejected ?w) (corpus_labels ?w (getIntents ?w)) = Some ?l"
    unfolding labels by (simp add: rejected_def accepted_def demo_with_def demo_defs startsWith_def)
  have err: "rejection ?w ?l = unsupported_entity ''@native.alien''"
    by (simp add: rejection_def demo_with_def demo_defs startsWith_def)
  have "?l \<in> set (corpus_labels ?w (getIntents ?w))" unfolding labels by simp
  from entity_rejection [OF this bad, of 2] first needed err show ?thesis
    by auto
qed

text \<open>
  C7. Training kickoff precondition. When the answer to the request that starts the
  training carries a status other than \<open>'Queued'\<close> (a missing status included), train
  throws, right after that request, the error \<open>Expected training to be Queued but was:\<close>
  followed by the status. No run of sync under such an answer polls, publishes or writes
  the store, none is left polling, and the store holds what it held. A run that started
  the training returns after logging the error: the log line is the last event, right
  after the request.
\<close>

theorem training_not_queued:
  assumes "trainResp w = Resolved st" and "st \<noteq> Some ''Queued''"
  shows "train fuel w =
      (Throw (Error (''Expected training to be Queued but was: '' @ js_str st)), [StartTraining])
    \<and> PollTraining \<notin> set (trace (sync fuel w))
    \<and> \<not> list_ex is_Publish (trace (sync fuel w))
    \<and> \<not> list_ex is_KvsSet (trace (sync fuel w))
    \<and> store (sync fuel w) = kvs w
    \<and> ending (sync fuel w) \<noteq> OutOfFuel
    \<and> (StartTraining \<in> set (trace (sync fuel w)) \<longrightarrow>
          ending (sync fuel w) = Return ()
          \<and> (\<exists>t. trace (sync fuel w) = t @ [StartTraining,
                Log Err (error_line (Error (''Expected training to be Queued but was: '' @ js_str st)))]))"
proof -
  let ?err = "Error (''Expected training to be Queued but was: '' @ js_str st)"
  have tr: "train fuel w = (Throw ?err, [StartTraining])"
    using assms by (simp add: train_def)
  note ev = preamble_events [of w] getRemoteVersion_events [of "versionsFirst w"]
  have rest: "PollTraining \<notin> set (trace (sync fuel w))
    \<and> \<not> list_ex is_Publish (trace (sync fuel w))
    \<and> \<not> list_ex is_KvsSet (trace (sync fuel w))
    \<and> store (sync fuel w) = kvs w
    \<and> ending (sync fuel w) \<noteq> OutOfFuel
    \<and> (StartTraining \<in> set (trace (sync fuel w)) \<longrightarrow>
          ending (sync fuel w) = Return ()
          \<and> (\<exists>t. trace (sync fuel w) = t @ [StartTraining, Log Err (error_line ?err)]))"
  proof (cases fuel w rule: sync_cases)
    case (TrainThrow b us info d err t)
    with tr have "err = ?err" "t = [StartTraining]" by simp_all
    with TrainThrow ev show ?thesis
      by (auto simp: list_ex_filter no_KvsSet_lookup no_Publish_lookup no_training_lookup)
  qed (use tr ev in \<open>auto simp: list_ex_filter no_KvsSet_lookup no_Publish_lookup no_training_lookup\<close>)
  with tr show ?thesis by blast
qed

theorem training_not_queued_witness:
  "train 2 (demo\<lparr>trainResp := Resolved (Some ''Success'')\<rparr>) =
      (Throw (Error ''Expected training to be Queued but was: Success''), [StartTraining])
   \<and> ending (sync 2 (demo\<lparr>trainResp := Resolved (Some ''Success'')\<rparr>)) = Return ()
   \<and> store (sync 2 (demo\<lparr>trainResp := Resolved (Some ''Success'')\<rparr>)) = None"
proof -
  let ?w = "demo\<lparr>trainResp := Resolved (Some ''Success'')\<rparr>"
  have resp: "trainResp ?w = Resolved (Some ''Success'')" by simp
  have other: "Some ''Success'' \<noteq> Some ''Queued''" by simp
  have started: "StartTraining \<in> set (trace (sync 2 ?w))"
    by (simp add: sync_defs demo_defs)
  have empty: "kvs ?w = None" by (simp add: demo_def)
  from training_not_queued [OF resp other, of 2] started empty show ?thesis by simp
qed

lemma first_occurrences_Cons:
  "first_occurrences (x # xs) = x # filter (\<lambda>y. y \<noteq> x) (first_occurrences xs)"
proof -
  have "remdups (ys @ [x]) = filter (\<lambda>y. y \<noteq> x) (remdups ys) @ [x]" for ys
    by (induction ys) auto
  then show ?thesis by (simp add: first_occurrences_def rev_filter)
qed

lemma sync_import_payload:
  assumes "ImportVersion p \<in> set (trace (sync fuel w))"
  shows "\<exists>info b us. construct w (getIntents w) = Inr (b, us) \<and> p = body info (getIntents w) b us"
proof -
  note ev = preamble_events [of w] getRemoteVersion_events [of "versionsFirst w"]
    getRemoteVersion_events [of "versionsSecond w"] train_events [of fuel w]
  have lk: "ImportVersion p \<notin> set t" if "list_all lookup_event t" for t
    using that by (auto simp: list_all_iff)
  have tk: "ImportVersion p \<notin> set t" if "list_all training_event t" for t
    using that by (auto simp: list_all_iff)
  show ?thesis
    using assms ev by (cases fuel w rule: sync_cases) (auto dest: lk tk)
qed

text \<open>
  C8. Built-in entity deduplication. When the construction succeeds, the list
  \<open>builtinEntities\<close> it returns is the list of the first occurrences of the LUIS names
  the labels of the corpus refer to, in the order of the traversal of intents, utterances
  and labels: it has every such name, and each once. The same holds of \<open>bing_entities\<close>
  in the payload of every import request a run of sync issues. The function
  \<open>first_occurrences\<close> keeps the head of a list and removes it from the first
  occurrences of the tail (\<open>first_occurrences_Cons\<close>).
\<close>

theorem bing_entities_deduplicated:
  "(construct w its = Inr (b, us) \<longrightarrow>
      b = first_occurrences (corpus_names w its) \<and> distinct b \<and> set b = set (corpus_names w its))
   \<and> (ImportVersion p \<in> set (trace (sync fuel w)) \<longrightarrow>
      bing_entities p = first_occurrences (corpus_names w (getIntents w))
      \<and> distinct (bing_entities p)
      \<and> set (bing_entities p) = set (corpus_names w (getIntents w)))"
proof -
  have one: "b = first_occurrences (corpus_names w its) \<and> distinct b \<and> set b = set (corpus_names w its)"
    if "construct w its = Inr (b, us)" for its b us
    using construct_names [OF that]
    by (simp add: distinct_first_occurrences set_first_occurrences)
  have two: "bing_entities p = first_occurrences (corpus_names w (getIntents w))
      \<and> distinct (bing_entities p)
      \<and> set (bing_entities p) = set (corpus_names w (getIntents w))"
    if "ImportVersion p \<in> set (trace (sync fuel w))"
  proof -
    from sync_import_payload [OF that] obtain info b' us' where
      c: "construct w (getIntents w) = Inr (b', us')" and p: "p = body info (getIntents w) b' us'"
      by blast
    from one [OF c] show ?thesis by (auto simp: p body_def)
  qed
  from one two show ?thesis by blast
qed

lemma demo_built: "construct demo (getIntents demo) = Inr ([''number'', ''email''], demo_utterances)"
    by (simp add: construct_def intent_step_def utterance_step_def label_step_def startsWith_def
        demo_defs demo_utterances_def)

lemma demo_names: "corpus_names demo (getIntents demo) = [''number'', ''email'', ''number'']"
    by (simp add: corpus_names_def corpus_labels_def intent_labels_def utterance_labels_def
        label_name_def demo_defs)

lemma demo_trace: "trace (sync 2 demo) = 
  [ListVersions, KvsGet,
  Log Debug ''[NLU::Luis] The model needs to be updated'', GetAppInfo,
  ImportVersion (body \<lparr>aname = ''bot'', description = ''a bot'', aculture = ''en-us''\<rparr>
      (getIntents demo) [''number'', ''email''] demo_utterances),
  StartTraining, PollTraining, LogTraining (Num 0), PollTraining,
  Log Debug ''[NLU::Luis] Model trained (100%)'', Publish True,
  ListVersions, KvsSet \<lparr>hash = ''greet'', time = Some ''t1''\<rparr>,
  Log Info ''[NLU::Luis] Synced model [1.0]'']"
  by (simp add: sync_defs demo_defs numeral_2_eq_2 demo_utterances_def)


theorem bing_entities_deduplicated_witness:
  "construct demo (getIntents demo) = Inr ([''number'', ''email''], demo_utterances)
   \<and> corpus_names demo (getIntents demo) = [''number'', ''email'', ''number'']
   \<and> first_occurrences (corpus_names demo (getIntents demo)) = [''number'', ''email'']
   \<and> list_ex is_ImportVersion (trace (sync 2 demo))"
proof -
  let ?p = "body \<lparr>aname = ''bot'', description = ''a bot'', aculture = ''en-us''\<rparr>
      (getIntents demo) [''number'', ''email''] demo_utterances"
  have sent: "ImportVersion ?p \<in> set (trace (sync 2 demo))"
    by (simp add: demo_trace)
  have some: "list_ex is_ImportVersion (trace (sync 2 demo))"
    by (simp add: demo_trace)
  from bing_entities_deduplicated [of demo "getIntents demo" "[''number'', ''email'']" demo_utterances ?p 2]
    sent demo_names demo_built some
  show ?thesis by simp
qed

text \<open>
  C9. Implicit native-prefix restriction. A label whose type is in the entity table with
  a truthy \<open>'@luis'\<close> name, and does not start with \<open>@native.\<close>, makes the callback
  throw the unknown-entity error that names the type, whatever the state. A corpus that
  contains such a label is one no payload is built from, and no run of sync on it issues
  an import request. When the label is the first one of the traversal that is rejected,
  the construction throws this unknown-entity error, and so does sync when the check says
  that a sync is needed.
\<close>

theorem native_prefix_required:
  assumes "Entities w (ltype l) = Some ent" and "luis ent = Some n" and "n \<noteq> []"
    and "\<not> startsWith (ltype l) ''@native.''"
  shows "label_step w l s = Inl (unknown_entity (ltype l))
    \<and> (l \<in> set (corpus_labels w (getIntents w)) \<longrightarrow>
         (\<exists>err. construct w (getIntents w) = Inl err)
         \<and> \<not> list_ex is_ImportVersion (trace (sync fuel w)))
    \<and> (find (rejected w) (corpus_labels w (getIntents w)) = Some l \<longrightarrow>
         construct w (getIntents w) = Inl (unknown_entity (ltype l))
         \<and> (isInSync w (getIntents w) (fst (getRemoteVersion (versionsFirst w))) = Inr False \<longrightarrow>
              ending (sync fuel w) = Throw (unknown_entity (ltype l))))"
proof -
  from assms have rej: "rejected w l" and err: "rejection w l = unknown_entity (ltype l)"
    by (simp_all add: rejected_def accepted_def rejection_def)
  from label_step_rejected [OF rej] err
  have step: "label_step w l s = Inl (unknown_entity (ltype l))" by simp
  have some: "(\<exists>err. construct w (getIntents w) = Inl err)
      \<and> \<not> list_ex is_ImportVersion (trace (sync fuel w))"
    if "l \<in> set (corpus_labels w (getIntents w))"
  proof -
    from construct_aborts [OF that rej] obtain l' where
      "construct w (getIntents w) = Inl (rejection w l')" by blast
    with sync_no_import_without_payload [OF this] show ?thesis by blast
  qed
  have first: "construct w (getIntents w) = Inl (unknown_entity (ltype l))
      \<and> (isInSync w (getIntents w) (fst (getRemoteVersion (versionsFirst w))) = Inr False \<longrightarrow>
           ending (sync fuel w) = Throw (unknown_entity (ltype l)))"
    if "find (rejected w) (corpus_labels w (getIntents w)) = Some l"
  proof -
    from construct_rejects [OF that] err
    have c: "construct w (getIntents w) = Inl (unknown_entity (ltype l))" by simp
    with sync_construct_throws [OF c] show ?thesis by simp
  qed
  from step some first show ?thesis by blast
qed

theorem native_prefix_required_witness:
  "ending (sync 2 (demo_with [''@native.number'', ''city''])) = Throw (unknown_entity ''city'')
   \<and> Entities (demo_with [''@native.number'', ''city'']) ''city'' = Some \<lparr>luis = Some ''geography''\<rparr>
   \<and> \<not> list_ex is_ImportVersion (trace (sync 2 (demo_with [''@native.number'', ''city''])))"
proof -
  let ?w = "demo_with [''@native.number'', ''city'']"
  let ?l = "\<lparr>ltype = ''city'', lstart = 0, lend = 1\<rparr>"
  have labels: "corpus_labels ?w (getIntents ?w) =
      [\<lparr>ltype = ''@native.number'', lstart = 0, lend = 1\<rparr>, ?l]"
    by (simp add: demo_with_def corpus_labels_def intent_labels_def utterance_labels_def demo_defs)
  have known: "Entities ?w (ltype ?l) = Some \<lparr>luis = Some ''geography''\<rparr>"
    by (simp add: demo_with_def demo_defs)
  have supported: "luis \<lparr>luis = Some ''geography''\<rparr> = Some ''geography''" by simp
  have nonempty: "''geography'' \<noteq> []" by simp
  have foreign: "\<not> startsWith (ltype ?l) ''@native.''" by (simp add: startsWith_def)
  have needed: "isInSync ?w (getIntents ?w) (fst (getRemoteVersion (versionsFirst ?w))) = Inr False"
    by (simp add: demo_with_def isInSync_def demo_defs)
  have first: "find (rejected ?w) (corpus_labels ?w (getIntents ?w)) = Some ?l"
    unfolding labels by (simp add: rejected_def accepted_def demo_with_def demo_defs startsWith_def)
  have inside: "?l \<in> set (corpus_labels ?w (getIntents ?w))" unfolding labels by simp
  from native_prefix_required [OF known supported nonempty foreign, of _ 2] first needed inside known
  show ?thesis by simp
qed

text \<open>
  C10. Implicit poll-loop termination condition. When the loop, started at iteration
  \<open>i\<close>, takes its \<open>break\<close> at iteration \<open>k\<close>, the answer to the \<open>k\<close>-th poll is a list
  of submodels that is not empty and has no submodel in progress. When every poll is
  answered with the empty list the loop never takes the exit and never throws: whatever
  the fuel, it is still polling when the fuel is used up, having polled once per unit of
  fuel, with a progress that is \<open>NaN\<close> every time.
\<close>

theorem poll_loop_exit:
  "(poll_loop fuel polls i = (Return k, t) \<longrightarrow>
      i \<le> k \<and> k < i + fuel
      \<and> (\<exists>models. polls k = Resolved models \<and> models \<noteq> [] \<and> filter inProgress models = []))
   \<and> ((\<forall>j. polls j = Resolved []) \<longrightarrow>
      poll_loop fuel polls i = (OutOfFuel, concat (replicate fuel [PollTraining, LogTraining NaN])))"
proof -
  have "i \<le> k \<and> k < i + fuel
      \<and> (\<exists>models. polls k = Resolved models \<and> models \<noteq> [] \<and> filter inProgress models = [])"
    if "poll_loop fuel polls i = (Return k, t)"
    using poll_loop_Return [OF that] poll_step_Break by blast
  moreover have "poll_loop fuel polls i = (OutOfFuel, concat (replicate fuel [PollTraining, LogTraining NaN]))"
    if "\<forall>j. polls j = Resolved []"
    using that by (intro poll_loop_empty) simp
  ultimately show ?thesis by blast
qed

theorem poll_loop_exit_witness:
  "poll_loop 2 demo_polls 0 =
     (Return 1, [PollTraining, LogTraining (Num 0), PollTraining, Log Debug ''[NLU::Luis] Model trained (100%)''])
   \<and> demo_polls 1 = Resolved [luis_model ''m1'' ''Success'' None]
   \<and> fst (poll_loop 3 (\<lambda>j. Resolved []) 0) = OutOfFuel"
proof -
  have run: "poll_loop 2 demo_polls 0 =
     (Return 1, [PollTraining, LogTraining (Num 0), PollTraining, Log Debug ''[NLU::Luis] Model trained (100%)''])"
    by (simp add: numeral_2_eq_2 demo_polls_def luis_model_def poll_step_def inProgress_def js_div_def)
  have empty: "\<forall>j. (\<lambda>j. Resolved ([]::submodel list)) j = Resolved []" by simp
  from poll_loop_exit [of 2 demo_polls 0 1] poll_loop_exit [of 3 "\<lambda>j. Resolved []" 0] run empty
  show ?thesis by (simp add: demo_polls_def)
qed

section \<open>Where the code departs from its specification\<close>

lemma isInSync_defined_remote:
  assumes "lastModified rv = Inr t"
  shows "isInSync w its rv = Inr (case kvs w of None \<Rightarrow> False | Some md \<Rightarrow> hash md = digest w its \<and> time md = t)"
  using assms by (simp add: isInSync_def split: option.splits)

text \<open>
  C1. Change detection. The specification counts an absent remote version, or an absent
  timestamp, as a mismatch. In the code, when a fingerprint is stored whose hash is the
  digest of the corpus and the lookup found no version \<open>1.0\<close> (the remote version is
  \<open>undefined\<close>), \<open>isInSync\<close> throws a \<open>TypeError\<close> on the read of
  \<open>lastModifiedDateTime\<close>, and sync throws it to its caller after the two lookups. And
  when the lookup failed (the remote version is the empty array, with no timestamp) and
  the stored fingerprint has no timestamp either, \<open>isInSync\<close> answers that the model is
  in sync. On a remote version that can be read, \<open>isInSync\<close> is the comparison the
  specification states (\<open>isInSync_defined_remote\<close>).
\<close>

theorem isInSync_undefined_remote:
  "isInSync (w\<lparr>kvs := Some \<lparr>hash = digest w its, time = t\<rparr>\<rparr>) its Undefined =
     Inl (TypeError ''Cannot read property lastModifiedDateTime of undefined'')
   \<and> getRemoteVersion (Resolved []) = (Undefined, [ListVersions])
   \<and> sync fuel (demo\<lparr>kvs := Some \<lparr>hash = ''greet'', time = Some ''t0''\<rparr>\<rparr>) =
       \<lparr>ending = Throw (TypeError ''Cannot read property lastModifiedDateTime of undefined''),
        trace = [ListVersions, KvsGet],
        store = Some \<lparr>hash = ''greet'', time = Some ''t0''\<rparr>\<rparr>
   \<and> isInSync (w\<lparr>kvs := Some \<lparr>hash = digest w its, time = None\<rparr>\<rparr>) its EmptyArray = Inr True"
  by (simp add: isInSync_def getRemoteVersion_def sync_def demo_defs)

lemma poll_step_own_status_Fail:
  assumes "find (\<lambda>m. mdetails m = None) models = None"
    and "find (\<lambda>m. status m = Some ''Fail'') models = Some m"
    and "mdetails m = Some d"
  shows "poll_step models = Raise (training_error (modelId m) (failureReason d))"
  using assms by (simp add: poll_step_def)

text \<open>
  C3. Training failure propagation. The loop looks for a failed submodel with
  \<open>_.find(models, { status: 'Fail' })\<close>, that is by the submodel's own \<open>status\<close>
  property, while it counts the submodels in progress by \<open>m.details.status\<close> and takes
  the reason from \<open>details.failureReason\<close>. A submodel that reports its failure where
  the loop reads the status of the others, in its details, is not found: a poll answered
  with that single submodel takes the success exit, train publishes and returns, and
  sync records the fingerprint. (A submodel whose own \<open>status\<close> is \<open>'Fail'\<close> does make
  the iteration throw the error with its identifier and reason:
  \<open>poll_step_own_status_Fail\<close>.)
\<close>

theorem failed_submodel_not_detected:
  "poll_step [luis_model mid ''Fail'' reason] = Break
   \<and> train (Suc fuel) (demo\<lparr>pollTrain := (\<lambda>i. Resolved [luis_model ''X'' ''Fail'' (Some ''FewLabels'')])\<rparr>) =
       (Return (), [StartTraining, PollTraining, Log Debug ''[NLU::Luis] Model trained (100%)'', Publish True])
   \<and> store (sync (Suc fuel) (demo\<lparr>pollTrain := (\<lambda>i. Resolved [luis_model ''X'' ''Fail'' (Some ''FewLabels'')])\<rparr>)) =
       Some \<lparr>hash = ''greet'', time = Some ''t1''\<rparr>"
  by (simp add: sync_defs demo_defs)

text \<open>
  C2. Fingerprint-write atomicity. The store is to be written only by a run whose import,
  training and publish have all succeeded, and a failure during polling is to leave it
  unchanged. The code writes at most once, and only after train has returned
  (\<open>fingerprint_written_once\<close>); but train returns from a training that failed. With
  nothing stored and a second poll in which the submodel \<open>X\<close> reports \<open>Fail\<close> in its
  details, the loop does not find the failure (it looks at the submodel's own \<open>status\<close>
  property), takes the success exit, and the run publishes, writes the fingerprint and
  logs that the model is synced.
\<close>

theorem fingerprint_written_after_failed_submodel:
  "kvs (demo\<lparr>pollTrain := failing_polls\<rparr>) = None
   \<and> failing_polls 1 =
       Resolved [luis_model ''m1'' ''Success'' None, luis_model ''X'' ''Fail'' (Some ''FewLabels'')]
   \<and> sync (Suc (Suc fuel)) (demo\<lparr>pollTrain := failing_polls\<rparr>) =
       \<lparr>ending = Return (),
        trace =
          [ListVersions, KvsGet, Log Debug ''[NLU::Luis] The model needs to be updated'', GetAppInfo,
           ImportVersion (body \<lparr>aname = ''bot'', description = ''a bot'', aculture = ''en-us''\<rparr>
             (getIntents demo) [''number'', ''email''] demo_utterances),
           StartTraining, PollTraining, LogTraining (Num 0), PollTraining,
           Log Debug ''[NLU::Luis] Model trained (100%)'', Publish True, ListVersions,
           KvsSet \<lparr>hash = ''greet'', time = Some ''t1''\<rparr>,
           Log Info ''[NLU::Luis] Synced model [1.0]''],
        store = Some \<lparr>hash = ''greet'', time = Some ''t1''\<rparr>\<rparr>"
  by (simp add: sync_defs demo_defs demo_utterances_def failing_polls_def)

text \<open>
  C5. Submission-failure handling. An error thrown in the \<open>try\<close> block is caught and
  logged, and sync returns. The logged text is
  \<open>'... Error = ' + detailedError || (err && err.message)\<close>, in which the concatenation is
  the left operand of \<open>||\<close> and is never empty: for an error without a structured
  detail the line ends with \<open>undefined\<close>, and the error's own message is not logged. So
  it is for a rejected import request that carries no response body.
\<close>

theorem error_line_without_detail:
  "error_line (Error m) = ''[NLU::Luis] Could not sync the model. Error = undefined''
   \<and> error_line (TypeError m) = ''[NLU::Luis] Could not sync the model. Error = undefined''
   \<and> error_line (RequestError m None) = ''[NLU::Luis] Could not sync the model. Error = undefined''
   \<and> trace (sync fuel (demo\<lparr>importResp := Rejected (RequestError ''connect ECONNREFUSED'' None)\<rparr>)) =
       [ListVersions, KvsGet, Log Debug ''[NLU::Luis] The model needs to be updated'', GetAppInfo,
        ImportVersion (body \<lparr>aname = ''bot'', description = ''a bot'', aculture = ''en-us''\<rparr>
          (getIntents demo) [''number'', ''email''] demo_utterances),
        Log Err ''[NLU::Luis] Could not sync the model. Error = undefined'']"
  by (simp add: sync_defs demo_defs demo_utterances_def)

text \<open>
  C6. Version-lookup degradation. When the lookup of the versions fails,
  \<open>getRemoteVersion\<close> logs it and returns the empty array. The empty array is truthy, so
  the test \<open>if (currentVersion)\<close> passes: with nothing stored (a sync is needed), every run
  of sync issues the delete request.
\<close>

theorem failed_lookup_deletes:
  "getRemoteVersion (Rejected err) =
     (EmptyArray, [ListVersions, Log Debug ''[NLU::Luis] Could not fetch app versions''])
   \<and> truthy EmptyArray
   \<and> DeleteVersion \<in> set (trace (sync fuel (w\<lparr>versionsFirst := Rejected err, kvs := None\<rparr>)))"
proof -
  let ?w = "w\<lparr>versionsFirst := Rejected err, kvs := None\<rparr>"
  have g: "getRemoteVersion (Rejected err) =
     (EmptyArray, [ListVersions, Log Debug ''[NLU::Luis] Could not fetch app versions''])"
    by (simp add: getRemoteVersion_def)
  have needed: "isInSync ?w (getIntents ?w) (fst (getRemoteVersion (versionsFirst ?w))) = Inr False"
    by (simp add: isInSync_def)
  have "DeleteVersion \<in> set (deleteVersion r)" for r
    by (simp add: deleteVersion_def split: response.splits)
  then have pre: "DeleteVersion \<in> set (preamble ?w)"
    by (simp add: preamble_def g)
  have "DeleteVersion \<in> set (trace (sync fuel ?w))"
    using needed pre by (cases fuel ?w rule: sync_cases) simp_all
  with g show ?thesis by simp
qed

end
